theory Spec2Isabelle
  imports Main "HOL-Library.Word" "HOL-Library.AList" "HOL-Library.Sublist"
begin

unbundle bit_operations_syntax

section \<open>NodeLogger\<close>

text \<open>
  \<^verbatim>\<open>export type LogLevel = 'debug' | 'info' | 'warn' | 'error'\<close> (interfaces/ILogger.ts).
  The union of string literals is a datatype; \<open>levelName\<close> gives back the literal.
\<close>

datatype LogLevel = Debug | Info | Warn | Error

fun levelName :: "LogLevel \<Rightarrow> string" where
  "levelName Debug = ''debug''"
| "levelName Info = ''info''"
| "levelName Warn = ''warn''"
| "levelName Error = ''error''"

text \<open>The table \<open>levels\<close> inside \<open>shouldLog\<close>.\<close>

fun levels :: "LogLevel \<Rightarrow> nat" where
  "levels Debug = 0"
| "levels Info = 1"
| "levels Warn = 2"
| "levels Error = 3"

text \<open>
  The two private fields of \<open>NodeLogger\<close>. The field \<open>level\<close> starts as \<open>'info'\<close>;
  the constructor takes the prefix.
\<close>

record NodeLogger =
  level :: LogLevel
  prefix :: string

definition NodeLogger_new :: "string \<Rightarrow> NodeLogger" where
  "NodeLogger_new p = \<lparr> level = Info, prefix = p \<rparr>"

definition shouldLog :: "NodeLogger \<Rightarrow> LogLevel \<Rightarrow> bool" where
  "shouldLog lg l = (levels l \<ge> levels (level lg))"

text \<open>
  \<open>String.prototype.toUpperCase\<close> on the ASCII letters that level names are made of, and
  \<open>padEnd(n)\<close> with the default filler, a space.
\<close>

definition toUpperCase :: "string \<Rightarrow> string" where
  "toUpperCase s =
     map (\<lambda>c. if (97::nat) \<le> of_char c \<and> (of_char c :: nat) \<le> 122
               then char_of ((of_char c :: nat) - 32) else c) s"

definition padEnd :: "nat \<Rightarrow> string \<Rightarrow> string" where
  "padEnd n s = s @ replicate (n - length s) CHR '' ''"

text \<open>
  \<open>formatMessage\<close> reads the clock (\<open>new Date().toISOString()\<close>); the reading is the
  argument \<open>timestamp\<close>. An empty prefix is falsy in JavaScript.
\<close>

definition formatMessage :: "NodeLogger \<Rightarrow> string \<Rightarrow> LogLevel \<Rightarrow> string \<Rightarrow> string" where
  "formatMessage lg timestamp l message =
     (let levelStr = padEnd 5 (toUpperCase (levelName l));
          prefixStr = (if prefix lg \<noteq> [] then ''['' @ prefix lg @ ''] '' else [])
      in timestamp @ '' '' @ levelStr @ '' '' @ prefixStr @ message)"

text \<open>
  The console is the list of lines written so far, each with the console method that
  wrote it. Every logging method returns the lines it appends.
\<close>

datatype consoleMethod = ConsoleError | ConsoleWarn | ConsoleInfo | ConsoleDebug

type_synonym consoleLine = "consoleMethod \<times> string"

text \<open>
  The argument of \<open>error\<close> is \<open>string | Error\<close>: a plain message, or an \<open>Error\<close> object
  with its message and its optional stack.
\<close>

datatype errorArg = Message string | ErrorObject string "string option"

definition error :: "NodeLogger \<Rightarrow> string \<Rightarrow> errorArg \<Rightarrow> consoleLine list" where
  "error lg timestamp message =
     (if \<not> shouldLog lg Error then []
      else
        let errorMessage = (case message of Message s \<Rightarrow> s | ErrorObject s _ \<Rightarrow> s);
            stack = (case message of Message _ \<Rightarrow> None | ErrorObject _ st \<Rightarrow> st)
        in (ConsoleError, formatMessage lg timestamp Error errorMessage)
           # (case stack of
                None \<Rightarrow> []
              | Some st \<Rightarrow> if st \<noteq> [] then [(ConsoleError, st)] else []))"

definition warn :: "NodeLogger \<Rightarrow> string \<Rightarrow> string \<Rightarrow> consoleLine list" where
  "warn lg timestamp message =
     (if \<not> shouldLog lg Warn then []
      else [(ConsoleWarn, formatMessage lg timestamp Warn message)])"

definition info :: "NodeLogger \<Rightarrow> string \<Rightarrow> string \<Rightarrow> consoleLine list" where
  "info lg timestamp message =
     (if \<not> shouldLog lg Info then []
      else [(ConsoleInfo, formatMessage lg timestamp Info message)])"

definition debug :: "NodeLogger \<Rightarrow> string \<Rightarrow> string \<Rightarrow> consoleLine list" where
  "debug lg timestamp message =
     (if \<not> shouldLog lg Debug then []
      else [(ConsoleDebug, formatMessage lg timestamp Debug message)])"

definition log :: "NodeLogger \<Rightarrow> string \<Rightarrow> string \<Rightarrow> consoleLine list" where
  "log lg timestamp message = info lg timestamp message"

definition setLevel :: "NodeLogger \<Rightarrow> LogLevel \<Rightarrow> NodeLogger" where
  "setLevel lg l = lg\<lparr> level := l \<rparr>"

definition child :: "NodeLogger \<Rightarrow> string \<Rightarrow> NodeLogger" where
  "child lg p =
     (let childPrefix = (if prefix lg \<noteq> [] then prefix lg @ '':'' @ p else p);
          c = NodeLogger_new childPrefix
      in setLevel c (level lg))"

text \<open>
  One call of a logging method at a given level, for stating what the four methods have
  in common.
\<close>

fun emit :: "NodeLogger \<Rightarrow> string \<Rightarrow> LogLevel \<Rightarrow> string \<Rightarrow> consoleLine list" where
  "emit lg timestamp Debug message = debug lg timestamp message"
| "emit lg timestamp Info message = info lg timestamp message"
| "emit lg timestamp Warn message = warn lg timestamp message"
| "emit lg timestamp Error message = error lg timestamp (Message message)"

section \<open>NodeSystemInfo\<close>

subsection \<open>SHA-256, for \<open>crypto.createHash('sha256')\<close>\<close>

text \<open>
  \<open>machineId\<close> hashes a string with Node's \<open>crypto\<close> module. The hash is SHA-256 as
  FIPS 180-4 defines it, on 32-bit words: \<open>+\<close> wraps modulo \<open>2^32\<close>. A string is taken as
  the list of its bytes (\<open>update\<close> encodes its argument as UTF-8).
\<close>

type_synonym u32 = "32 word"

definition rotr :: "nat \<Rightarrow> u32 \<Rightarrow> u32" where
  "rotr n x = drop_bit n x OR push_bit (32 - n) x"

definition Ch :: "u32 \<Rightarrow> u32 \<Rightarrow> u32 \<Rightarrow> u32" where
  "Ch x y z = (x AND y) XOR (NOT x AND z)"

definition Maj :: "u32 \<Rightarrow> u32 \<Rightarrow> u32 \<Rightarrow> u32" where
  "Maj x y z = (x AND y) XOR (x AND z) XOR (y AND z)"

definition Sigma0 :: "u32 \<Rightarrow> u32" where
  "Sigma0 x = rotr 2 x XOR rotr 13 x XOR rotr 22 x"

definition Sigma1 :: "u32 \<Rightarrow> u32" where
  "Sigma1 x = rotr 6 x XOR rotr 11 x XOR rotr 25 x"

definition sigma0 :: "u32 \<Rightarrow> u32" where
  "sigma0 x = rotr 7 x XOR rotr 18 x XOR drop_bit 3 x"

definition sigma1 :: "u32 \<Rightarrow> u32" where
  "sigma1 x = rotr 17 x XOR rotr 19 x XOR drop_bit 10 x"

text \<open>The round constants, eight to a row, and the initial hash value.\<close>

definition K256 :: "u32 list" where
  "K256 =
     [0x428a2f98, 0x71374491, 0xb5c0fbcf, 0xe9b5dba5, 0x3956c25b, 0x59f111f1, 0x923f82a4, 0xab1c5ed5]
   @ [0xd807aa98, 0x12835b01, 0x243185be, 0x550c7dc3, 0x72be5d74, 0x80deb1fe, 0x9bdc06a7, 0xc19bf174]
   @ [0xe49b69c1, 0xefbe4786, 0x0fc19dc6, 0x240ca1cc, 0x2de92c6f, 0x4a7484aa, 0x5cb0a9dc, 0x76f988da]
   @ [0x983e5152, 0xa831c66d, 0xb00327c8, 0xbf597fc7, 0xc6e00bf3, 0xd5a79147, 0x06ca6351, 0x14292967]
   @ [0x27b70a85, 0x2e1b2138, 0x4d2c6dfc, 0x53380d13, 0x650a7354, 0x766a0abb, 0x81c2c92e, 0x92722c85]
   @ [0xa2bfe8a1, 0xa81a664b, 0xc24b8b70, 0xc76c51a3, 0xd192e819, 0xd6990624, 0xf40e3585, 0x106aa070]
   @ [0x19a4c116, 0x1e376c08, 0x2748774c, 0x34b0bcb5, 0x391c0cb3, 0x4ed8aa4a, 0x5b9cca4f, 0x682e6ff3]
   @ [0x748f82ee, 0x78a5636f, 0x84c87814, 0x8cc70208, 0x90befffa, 0xa4506ceb, 0xbef9a3f7, 0xc67178f2]"

type_synonym hashState = "u32 \<times> u32 \<times> u32 \<times> u32 \<times> u32 \<times> u32 \<times> u32 \<times> u32"

definition H256 :: hashState where
  "H256 = (0x6a09e667, 0xbb67ae85, 0x3c6ef372, 0xa54ff53a,
           0x510e527f, 0x9b05688c, 0x1f83d9ab, 0x5be0cd19)"

text \<open>
  Padding: the byte \<open>0x80\<close>, zero bytes up to 56 modulo 64, then the length of the message
  in bits as a big-endian 64-bit number.
\<close>

definition pad :: "8 word list \<Rightarrow> 8 word list" where
  "pad bs =
     (let l = length bs;
          k = (64 - (l + 9) mod 64) mod 64;
          bits = (word_of_nat (8 * l) :: 64 word)
      in bs @ [0x80] @ replicate k 0
         @ map (\<lambda>i. ucast (drop_bit (8 * (7 - i)) bits)) [0..<8])"

fun words_of :: "8 word list \<Rightarrow> u32 list" where
  "words_of (a # b # c # d # bs) =
     (push_bit 24 (ucast a) OR push_bit 16 (ucast b) OR push_bit 8 (ucast c) OR ucast d)
     # words_of bs"
| "words_of _ = []"

fun blocks :: "u32 list \<Rightarrow> u32 list list" where
  "blocks [] = []"
| "blocks (w # ws) = take 16 (w # ws) # blocks (drop 16 (w # ws))"

fun schedule :: "nat \<Rightarrow> u32 list \<Rightarrow> u32 list" where
  "schedule 0 w = w"
| "schedule (Suc n) w =
     schedule n (w @ [sigma1 (w ! (length w - 2)) + w ! (length w - 7)
                      + sigma0 (w ! (length w - 15)) + w ! (length w - 16)])"

text \<open>One of the 64 rounds, the compression of one block, and the hash of a message.\<close>

definition round :: "hashState \<Rightarrow> u32 \<times> u32 \<Rightarrow> hashState" where
  "round = (\<lambda>(a, b, c, d, e, f, g, h) (k, w).
     (let t1 = h + Sigma1 e + Ch e f g + k + w;
          t2 = Sigma0 a + Maj a b c
      in (t1 + t2, a, b, c, d + t1, e, f, g)))"

definition add_state :: "hashState \<Rightarrow> hashState \<Rightarrow> hashState" where
  "add_state = (\<lambda>(a, b, c, d, e, f, g, h) (a', b', c', d', e', f', g', h').
     (a + a', b + b', c + c', d + d', e + e', f + f', g + g', h + h'))"

definition compress :: "hashState \<Rightarrow> u32 list \<Rightarrow> hashState" where
  "compress hs block = add_state hs (foldl round hs (zip K256 (schedule 48 block)))"

definition sha256 :: "8 word list \<Rightarrow> hashState" where
  "sha256 bs = foldl compress H256 (blocks (words_of (pad bs)))"

text \<open>\<open>digest('hex')\<close>: each word as eight lowercase hexadecimal digits, high nibble first.\<close>

definition hexChars :: string where
  "hexChars = ''0123456789abcdef''"

definition hexDigit :: "nat \<Rightarrow> char" where
  "hexDigit n = hexChars ! (n mod 16)"

definition hex32 :: "u32 \<Rightarrow> string" where
  "hex32 w = map (\<lambda>i. hexDigit (unat (drop_bit (4 * (7 - i)) w AND 0xF))) [0..<8]"

definition hex_of_state :: "hashState \<Rightarrow> string" where
  "hex_of_state = (\<lambda>(a, b, c, d, e, f, g, h).
     hex32 a @ hex32 b @ hex32 c @ hex32 d @ hex32 e @ hex32 f @ hex32 g @ hex32 h)"

definition sha256_hex :: "string \<Rightarrow> string" where
  "sha256_hex s = hex_of_state (sha256 (map of_char s))"

subsection \<open>The class\<close>

text \<open>
  The functions of Node's \<open>os\<close> module that \<open>NodeSystemInfo\<close> calls: what the host
  answers. \<open>machineId\<close> reads the first three.
\<close>

record os =
  hostname :: string
  platform :: string
  arch :: string
  homedir :: string
  tmpdir :: string

text \<open>
  The one private field, \<^verbatim>\<open>private _machineId: string | undefined\<close>; a new instance has it
  undefined.
\<close>

record NodeSystemInfo =
  machineId_cache :: "string option"

definition NodeSystemInfo_new :: NodeSystemInfo where
  "NodeSystemInfo_new = \<lparr> machineId_cache = None \<rparr>"

text \<open>
  The body of the \<open>if\<close> in the getter \<open>machineId\<close>:
  \<^verbatim>\<open>const identifier = `${os.hostname()}-${os.platform()}-${os.arch()}`\<close>, then
  \<^verbatim>\<open>crypto.createHash('sha256').update(identifier).digest('hex').substring(0, 32)\<close>.
\<close>

definition computeMachineId :: "os \<Rightarrow> string" where
  "computeMachineId e =
     (let identifier = hostname e @ ''-'' @ platform e @ ''-'' @ arch e
      in take 32 (sha256_hex identifier))"

text \<open>
  The getter returns the value and leaves the instance with its cache filled.
  \<^verbatim>\<open>if (!this._machineId)\<close> holds for \<open>undefined\<close> and for the empty string.
\<close>

definition machineId :: "os \<Rightarrow> NodeSystemInfo \<Rightarrow> string \<times> NodeSystemInfo" where
  "machineId e this =
     (case machineId_cache this of
        None \<Rightarrow> (computeMachineId e, this\<lparr> machineId_cache := Some (computeMachineId e) \<rparr>)
      | Some v \<Rightarrow>
          if v = [] then (computeMachineId e, this\<lparr> machineId_cache := Some (computeMachineId e) \<rparr>)
          else (v, this))"

text \<open>A string of lowercase hexadecimal digits.\<close>

definition isLowerHex :: "string \<Rightarrow> bool" where
  "isLowerHex s = list_all (\<lambda>c. c \<in> set hexChars) s"

text \<open>Two hosts with one name, platform and architecture, and different directories.\<close>

definition hostA :: os where
  "hostA = \<lparr> hostname = ''myhost'', platform = ''linux'', arch = ''x64'',
             homedir = ''/home/a'', tmpdir = ''/tmp'' \<rparr>"

definition hostB :: os where
  "hostB = \<lparr> hostname = ''myhost'', platform = ''linux'', arch = ''x64'',
             homedir = ''/root'', tmpdir = ''/var/tmp'' \<rparr>"

section \<open>Task and TaskManager\<close>

subsection \<open>Types of \<open>types/engine.ts\<close>\<close>

text \<open>
  A thrown value is \<^verbatim>\<open>new Error(message)\<close>; a rejected promise carries one.
\<close>

datatype jsError = JsError string

text \<open>
  \<open>TaskConfig\<close>: every field is optional. The engine stores a configuration and reads no
  field of it, so integers stand for the two JavaScript numbers.
\<close>

record TaskConfig =
  maxTokens :: "int option"
  temperature :: "int option"
  provider :: "string option"
  model :: "string option"
  systemPrompt :: "string option"
  workspaceRoot :: "string option"
  allowedTools :: "string list option"

text \<open>
  \<^verbatim>\<open>export type TaskStatus = 'pending' | 'running' | 'completed' | 'error' | 'cancelled'\<close>.
  The literal \<open>'error'\<close> is the constructor \<open>StatusError\<close>; \<open>statusName\<close> gives the
  literals back.
\<close>

datatype TaskStatus = Pending | Running | Completed | StatusError | Cancelled

fun statusName :: "TaskStatus \<Rightarrow> string" where
  "statusName Pending = ''pending''"
| "statusName Running = ''running''"
| "statusName Completed = ''completed''"
| "statusName StatusError = ''error''"
| "statusName Cancelled = ''cancelled''"

text \<open>
  \<open>TaskResult\<close>; its field \<open>output\<close> is \<open>output_text\<close> and its optional field
  \<open>error\<close> is \<open>result_error\<close>.
\<close>

record TaskResult =
  success :: bool
  output_text :: string
  tokensUsed :: int
  duration :: int
  result_error :: "string option"

text \<open>\<open>SubTask\<close>; a Task starts with none and no method adds one.\<close>

record SubTask =
  sub_id :: string
  sub_description :: string
  sub_status :: TaskStatus
  sub_result :: "string option"

subsection \<open>The class \<open>Task\<close>\<close>

text \<open>
  What a Task emits as an \<open>EventEmitter\<close>: \<open>'statusChanged'\<close> with the status,
  \<open>'completed'\<close> with the result, \<open>'error'\<close> with the error, \<open>'cancelled'\<close>.
\<close>

datatype TaskEmit =
    StatusChanged TaskStatus
  | EmitCompleted TaskResult
  | EmitError jsError
  | EmitCancelled

text \<open>
  The fields of a Task. A \<open>Date\<close> is its reading of the clock in milliseconds; an
  optional field is an \<open>option\<close>. \<open>id\<close> and \<open>error\<close> are \<open>id_task\<close> and
  \<open>error_task\<close>; \<open>emitted_task\<close> is the sequence of events the object has emitted.
\<close>

record Task =
  id_task :: string
  input :: string
  config :: TaskConfig
  status :: TaskStatus
  createdAt :: int
  startedAt :: "int option"
  completedAt :: "int option"
  result :: "TaskResult option"
  error_task :: "jsError option"
  subTasks :: "SubTask list"
  cancelled :: bool
  emitted_task :: "TaskEmit list"

text \<open>The constructor, with the field initialisers; \<open>now\<close> is what \<open>new Date()\<close> reads.\<close>

definition Task_new :: "string \<Rightarrow> string \<Rightarrow> TaskConfig \<Rightarrow> int \<Rightarrow> Task" where
  "Task_new taskId inp cfg now =
     \<lparr> id_task = taskId, input = inp, config = cfg, status = Pending, createdAt = now,
       startedAt = None, completedAt = None, result = None, error_task = None,
       subTasks = [], cancelled = False, emitted_task = [] \<rparr>"

text \<open>
  \<open>execute\<close> is an \<open>async\<close> method: a call runs it up to its first \<open>await\<close>, and the
  rest runs when the awaited promise has settled. \<open>execute_start\<close> is the part before
  \<^verbatim>\<open>await this.executeTaskLogic()\<close>: the guard, which throws outside the \<open>try\<close>, and the
  three statements that enter \<open>'running'\<close>.
\<close>

definition execute_start :: "Task \<Rightarrow> int \<Rightarrow> jsError + Task" where
  "execute_start this now =
     (if status this \<noteq> Pending
      then Inl (JsError (''Task '' @ id_task this @ '' is not in pending state''))
      else Inr (this\<lparr> status := Running, startedAt := Some now,
                      emitted_task := emitted_task this @ [StatusChanged Running] \<rparr>))"

text \<open>The message \<open>execute\<close> passes to \<open>dependencies.logger.log\<close>.\<close>

definition startingMessage :: "Task \<Rightarrow> string" where
  "startingMessage this = ''Starting task '' @ id_task this @ '': '' @ input this"

text \<open>
  \<open>executeTaskLogic\<close> calls \<^verbatim>\<open>this.dependencies.aiProvider.complete(this.input)\<close> and
  awaits it. When the provider has settled, a rejection passes through and a response
  becomes the result; \<open>now\<close> is what \<open>Date.now()\<close> reads then, and
  \<^verbatim>\<open>this.startedAt?.getTime() || 0\<close> is 0 without a start time.
\<close>

definition executeTaskLogic_resume :: "Task \<Rightarrow> int \<Rightarrow> jsError + string \<Rightarrow> jsError + TaskResult" where
  "executeTaskLogic_resume this now settled =
     (case settled of
        Inl e \<Rightarrow> Inl e
      | Inr response \<Rightarrow>
          Inr \<lparr> success = True, output_text = response, tokensUsed = 0,
                duration = now - (case startedAt this of None \<Rightarrow> 0 | Some s \<Rightarrow> s),
                result_error = None \<rparr>)"

text \<open>
  The rest of \<open>execute\<close>, after \<open>executeTaskLogic\<close> has settled: the end of the \<open>try\<close>
  block on a result, the \<open>catch\<close> block on an error. The promise of \<open>execute\<close> then
  settles with the same result or error.
\<close>

definition execute_resume :: "Task \<Rightarrow> int \<Rightarrow> jsError + TaskResult \<Rightarrow> Task" where
  "execute_resume this now settled =
     (case settled of
        Inr res \<Rightarrow>
          this\<lparr> status := Completed, completedAt := Some now, result := Some res,
                emitted_task := emitted_task this @ [StatusChanged Completed, EmitCompleted res] \<rparr>
      | Inl e \<Rightarrow>
          this\<lparr> status := StatusError, completedAt := Some now, error_task := Some e,
                emitted_task := emitted_task this @ [StatusChanged StatusError, EmitError e] \<rparr>)"

text \<open>\<open>cancel\<close> has no \<open>await\<close>: a call runs it whole.\<close>

definition cancel :: "Task \<Rightarrow> int \<Rightarrow> Task" where
  "cancel this now =
     (if status this = Completed \<or> status this = StatusError then this
      else this\<lparr> cancelled := True, status := Cancelled, completedAt := Some now,
                 emitted_task := emitted_task this @ [StatusChanged Cancelled, EmitCancelled] \<rparr>)"

text \<open>
  \<open>checkCancellation\<close>, the private method that reads the flag \<open>cancel\<close> sets. No method
  of the class calls it.
\<close>

definition checkCancellation :: "Task \<Rightarrow> jsError option" where
  "checkCancellation this =
     (if cancelled this then Some (JsError ''Task was cancelled'') else None)"

subsection \<open>The class \<open>TaskManager\<close>\<close>

text \<open>What the manager emits: each event with the address of the Task it carries.\<close>

datatype ManagerEmit =
    TaskCreated nat
  | TaskStarted nat
  | TaskCompleted nat TaskResult
  | TaskError nat jsError
  | TaskCancelled nat

text \<open>
  A suspended \<open>async\<close> call, named by the \<open>await\<close> it stands at and the Task it runs for:
  \<^item> \<open>AwaitProvider a\<close>: \<open>executeTaskLogic\<close> awaits \<open>aiProvider.complete\<close>;
  \<^item> \<open>AwaitLogic a r\<close>: \<open>Task.execute\<close> awaits \<open>executeTaskLogic\<close>, which has settled
    with \<open>r\<close>;
  \<^item> \<open>AwaitExecute a r\<close>: \<open>TaskManager.executeTask\<close> awaits \<open>task.execute()\<close>, which has
    settled with \<open>r\<close>;
  \<^item> \<open>AwaitCancel a\<close>: \<open>TaskManager.cancelTask\<close> awaits \<open>task.cancel()\<close>, which has
    returned.
\<close>

datatype continuation =
    AwaitProvider nat
  | AwaitLogic nat "jsError + TaskResult"
  | AwaitExecute nat "jsError + TaskResult"
  | AwaitCancel nat

text \<open>
  The state of one manager and of what it shares with its Tasks. Tasks are objects: \<open>heap\<close>
  holds them, an address is an index into it, and the map \<open>tasks\<close> and the field
  \<open>activeTask\<close> hold addresses. \<open>tasks\<close> is a JavaScript \<open>Map\<close>: keys in insertion
  order, a key set again keeps its place. \<open>emitted\<close> is the sequence of the manager's own
  events, \<open>suspended\<close> the calls waiting at an \<open>await\<close>, \<open>providerCalls\<close> the prompts
  passed to \<open>aiProvider.complete\<close>, \<open>logged\<close> the messages passed to \<open>logger.log\<close>.
\<close>

record TaskManager =
  heap :: "Task list"
  tasks :: "(string \<times> nat) list"
  activeTask :: "nat option"
  emitted :: "ManagerEmit list"
  suspended :: "continuation list"
  providerCalls :: "string list"
  logged :: "string list"

definition TaskManager_new :: TaskManager where
  "TaskManager_new =
     \<lparr> heap = [], tasks = [], activeTask = None, emitted = [], suspended = [],
       providerCalls = [], logged = [] \<rparr>"

text \<open>What a call answers: the promise it returns, as far as it has settled when the call
  returns.\<close>

datatype reply =
    TaskRef nat
  | Throws jsError
  | Result TaskResult
  | Awaiting
  | Void

text \<open>
  \<open>createTask\<close>; \<open>taskId\<close> is what \<open>uuidv4()\<close> draws. The new object gets the next free
  address.
\<close>

definition createTask :: "TaskManager \<Rightarrow> int \<Rightarrow> string \<Rightarrow> string \<Rightarrow> TaskConfig \<Rightarrow> TaskManager \<times> reply" where
  "createTask m now taskId inp cfg =
     (let a = length (heap m);
          task = Task_new taskId inp cfg now
      in (m\<lparr> heap := heap m @ [task],
             tasks := AList.update taskId a (tasks m),
             emitted := emitted m @ [TaskCreated a] \<rparr>,
          TaskRef a))"

text \<open>
  \<open>executeTask\<close> up to \<^verbatim>\<open>await task.execute()\<close>. The two guards throw before anything is
  written. Past them, \<open>task.execute()\<close> is called: it either rejects at its own guard, or
  enters \<open>'running'\<close>, logs and calls the provider.
\<close>

definition executeTask :: "TaskManager \<Rightarrow> int \<Rightarrow> string \<Rightarrow> TaskManager \<times> reply" where
  "executeTask m now taskId =
     (case map_of (tasks m) taskId of
        None \<Rightarrow> (m, Throws (JsError (''Task '' @ taskId @ '' not found'')))
      | Some a \<Rightarrow>
          if activeTask m \<noteq> None
          then (m, Throws (JsError ''Another task is already running''))
          else
            let m1 = m\<lparr> activeTask := Some a, emitted := emitted m @ [TaskStarted a] \<rparr>
            in (case execute_start (heap m1 ! a) now of
                  Inl e \<Rightarrow>
                    (m1\<lparr> suspended := suspended m1 @ [AwaitExecute a (Inl e)] \<rparr>, Awaiting)
                | Inr task \<Rightarrow>
                    (m1\<lparr> heap := (heap m1)[a := task],
                          logged := logged m1 @ [startingMessage task],
                          providerCalls := providerCalls m1 @ [input task],
                          suspended := suspended m1 @ [AwaitProvider a] \<rparr>,
                     Awaiting)))"

text \<open>\<open>cancelTask\<close> up to the return of \<open>task.cancel()\<close>.\<close>

definition cancelTask :: "TaskManager \<Rightarrow> int \<Rightarrow> string \<Rightarrow> TaskManager \<times> reply" where
  "cancelTask m now taskId =
     (case map_of (tasks m) taskId of
        None \<Rightarrow> (m, Throws (JsError (''Task '' @ taskId @ '' not found'')))
      | Some a \<Rightarrow>
          (m\<lparr> heap := (heap m)[a := cancel (heap m ! a) now],
               suspended := suspended m @ [AwaitCancel a] \<rparr>,
           Awaiting))"

text \<open>
  One suspended call goes on, up to its next \<open>await\<close> or its end. \<open>settled\<close> is what the
  provider's promise has settled with; only \<open>AwaitProvider\<close> reads it. The end of
  \<open>executeTask\<close> emits \<open>'taskCompleted'\<close> or \<open>'taskError'\<close>, and its \<open>finally\<close> block
  clears \<open>activeTask\<close>; the end of \<open>cancelTask\<close> emits \<open>'taskCancelled'\<close>.
\<close>

definition continue :: "TaskManager \<Rightarrow> int \<Rightarrow> continuation \<Rightarrow> jsError + string \<Rightarrow> TaskManager \<times> reply" where
  "continue m now c settled =
     (case c of
        AwaitProvider a \<Rightarrow>
          (m\<lparr> suspended := suspended m
                  @ [AwaitLogic a (executeTaskLogic_resume (heap m ! a) now settled)] \<rparr>,
           Awaiting)
      | AwaitLogic a r \<Rightarrow>
          (m\<lparr> heap := (heap m)[a := execute_resume (heap m ! a) now r],
               suspended := suspended m @ [AwaitExecute a r] \<rparr>,
           Awaiting)
      | AwaitExecute a r \<Rightarrow>
          (case r of
             Inr res \<Rightarrow>
               (m\<lparr> emitted := emitted m @ [TaskCompleted a res], activeTask := None \<rparr>,
                Result res)
           | Inl e \<Rightarrow>
               (m\<lparr> emitted := emitted m @ [TaskError a e], activeTask := None \<rparr>,
                Throws e))
      | AwaitCancel a \<Rightarrow>
          (m\<lparr> emitted := emitted m @ [TaskCancelled a] \<rparr>, Void))"

text \<open>
  The \<open>k\<close>-th suspended call is taken out of the list and goes on. Any of them may be the
  next: the order in which the runtime resumes them is not fixed here.
\<close>

definition resume :: "TaskManager \<Rightarrow> int \<Rightarrow> nat \<Rightarrow> jsError + string \<Rightarrow> TaskManager \<times> reply" where
  "resume m now k settled =
     (if k < length (suspended m)
      then continue (m\<lparr> suspended := take k (suspended m) @ drop (Suc k) (suspended m) \<rparr>)
             now (suspended m ! k) settled
      else (m, Void))"

text \<open>The three getters.\<close>

definition getTask :: "TaskManager \<Rightarrow> string \<Rightarrow> Task option" where
  "getTask m taskId = map_option (\<lambda>a. heap m ! a) (map_of (tasks m) taskId)"

definition getAllTasks :: "TaskManager \<Rightarrow> Task list" where
  "getAllTasks m = map (\<lambda>(k, a). heap m ! a) (tasks m)"

definition getActiveTask :: "TaskManager \<Rightarrow> Task option" where
  "getActiveTask m = map_option (\<lambda>a. heap m ! a) (activeTask m)"

subsection \<open>Runs\<close>

text \<open>
  What can happen to a manager: one of its three \<open>async\<close> methods is called, or a
  suspended call is resumed. Each comes with the reading of the clock at that moment.
\<close>

datatype call =
    CreateTask string string TaskConfig
  | ExecuteTask string
  | CancelTask string
  | Resume nat "jsError + string"

fun step :: "TaskManager \<Rightarrow> int \<times> call \<Rightarrow> TaskManager \<times> reply" where
  "step m (now, CreateTask taskId inp cfg) = createTask m now taskId inp cfg"
| "step m (now, ExecuteTask taskId) = executeTask m now taskId"
| "step m (now, CancelTask taskId) = cancelTask m now taskId"
| "step m (now, Resume k settled) = resume m now k settled"

definition run :: "TaskManager \<Rightarrow> (int \<times> call) list \<Rightarrow> TaskManager" where
  "run m cs = foldl (\<lambda>m c. fst (step m c)) m cs"

text \<open>A Task that is executing.\<close>

definition isRunning :: "Task \<Rightarrow> bool" where
  "isRunning t = (status t = Running)"

text \<open>The empty configuration \<open>{}\<close>, as the tests pass it.\<close>

definition emptyConfig :: TaskConfig where
  "emptyConfig =
     \<lparr> maxTokens = None, temperature = None, provider = None, model = None,
       systemPrompt = None, workspaceRoot = None, allowedTools = None \<rparr>"

subsection \<open>Invariants of the manager\<close>

text \<open>
  The Task a suspended call runs for; the calls that belong to one \<open>executeTask\<close>; of those,
  the ones that wait for the provider or for \<open>executeTaskLogic\<close>, and the one that waits
  for \<open>task.execute()\<close>.
\<close>

fun addr :: "continuation \<Rightarrow> nat" where
  "addr (AwaitProvider a) = a"
| "addr (AwaitLogic a r) = a"
| "addr (AwaitExecute a r) = a"
| "addr (AwaitCancel a) = a"

fun chainTarget :: "continuation \<Rightarrow> nat option" where
  "chainTarget (AwaitCancel a) = None"
| "chainTarget c = Some (addr c)"

fun inflight :: "continuation \<Rightarrow> bool" where
  "inflight (AwaitProvider a) = True"
| "inflight (AwaitLogic a r) = True"
| "inflight c = False"

fun settledExecute :: "continuation \<Rightarrow> bool" where
  "settledExecute (AwaitExecute a r) = True"
| "settledExecute c = False"

text \<open>The Tasks that a suspended \<open>executeTask\<close> runs for.\<close>

definition chain :: "TaskManager \<Rightarrow> nat list" where
  "chain m = List.map_filter chainTarget (suspended m)"

text \<open>
  What holds of a manager in every state it can reach:
  \<^item> every address in the map and in a suspended call is the address of an object;
  \<^item> a Task that is running is the active Task;
  \<^item> one \<open>executeTask\<close> is suspended when there is an active Task, for that Task, and
    none otherwise;
  \<^item> the Task of an \<open>executeTask\<close> whose \<open>task.execute()\<close> has settled is not running;
  \<^item> the Task of an \<open>executeTask\<close> whose \<open>task.execute()\<close> has not settled is running
    or cancelled.
\<close>

definition inv_valid :: "TaskManager \<Rightarrow> bool" where
  "inv_valid m =
     ((\<forall>k a. map_of (tasks m) k = Some a \<longrightarrow> a < length (heap m))
      \<and> (\<forall>c \<in> set (suspended m). addr c < length (heap m)))"

definition inv_active :: "TaskManager \<Rightarrow> bool" where
  "inv_active m = (\<forall>b < length (heap m). isRunning (heap m ! b) \<longrightarrow> activeTask m = Some b)"

definition inv_chain :: "TaskManager \<Rightarrow> bool" where
  "inv_chain m = (chain m = (case activeTask m of None \<Rightarrow> [] | Some a \<Rightarrow> [a]))"

definition inv_settled :: "TaskManager \<Rightarrow> bool" where
  "inv_settled m =
     (\<forall>c \<in> set (suspended m). settledExecute c \<longrightarrow> \<not> isRunning (heap m ! addr c))"

definition inv_inflight :: "TaskManager \<Rightarrow> bool" where
  "inv_inflight m =
     (\<forall>c \<in> set (suspended m). inflight c
        \<longrightarrow> status (heap m ! addr c) = Running \<or> status (heap m ! addr c) = Cancelled)"

definition inv :: "TaskManager \<Rightarrow> bool" where
  "inv m = (inv_valid m \<and> inv_active m \<and> inv_chain m \<and> inv_settled m \<and> inv_inflight m)"

subsection \<open>Example runs\<close>

text \<open>
  The test \<open>should prevent concurrent task execution\<close> of \<open>TaskManager.test.ts\<close>, up to
  its second \<open>executeTask\<close>: two Tasks are created and the first is started.
\<close>

definition testRun :: "(int \<times> call) list" where
  "testRun =
     [(1, CreateTask ''task-1'' ''test1'' emptyConfig),
      (2, CreateTask ''task-2'' ''test2'' emptyConfig),
      (3, ExecuteTask ''task-1'')]"

text \<open>
  A Task is created and started, and cancelled while the provider is still working; then
  the provider answers and \<open>execute\<close> goes on.
\<close>

definition cancelRun :: "(int \<times> call) list" where
  "cancelRun =
     [(1, CreateTask ''task-1'' ''list files'' emptyConfig),
      (2, ExecuteTask ''task-1''),
      (3, CancelTask ''task-1''),
      (4, Resume 0 (Inr ''done'')),
      (5, Resume 1 (Inr []))]"

text \<open>A manager whose one Task was cancelled before it was started.\<close>

definition cancelledOnce :: TaskManager where
  "cancelledOnce =
     run TaskManager_new
       [(1, CreateTask ''task-1'' ''list files'' emptyConfig), (2, CancelTask ''task-1'')]"

text \<open>A Task is created and started, and the provider rejects.\<close>

definition failRun :: "(int \<times> call) list" where
  "failRun =
     [(1, CreateTask ''task-1'' ''list files'' emptyConfig),
      (2, ExecuteTask ''task-1''),
      (3, Resume 0 (Inl (JsError ''provider unreachable''))),
      (4, Resume 0 (Inr []))]"

text \<open>A Task is created and cancelled before it is started.\<close>

definition pendingCancelRun :: "(int \<times> call) list" where
  "pendingCancelRun =
     [(1, CreateTask ''task-1'' ''list files'' emptyConfig),
      (2, CancelTask ''task-1'')]"

text \<open>
  The test \<open>should execute task and return result\<close>: a Task is created and started, the
  provider answers, and the two calls that wait for it go on.
\<close>

definition completeRun :: "(int \<times> call) list" where
  "completeRun =
     [(1, CreateTask ''task-1'' ''list files'' emptyConfig),
      (2, ExecuteTask ''task-1''),
      (3, Resume 0 (Inr ''README.md'')),
      (4, Resume 0 (Inr [])),
      (5, Resume 0 (Inr []))]"

subsection \<open>Predicates for the properties\<close>

text \<open>A call of \<open>executeTask\<close>.\<close>

fun isExecuteTask :: "call \<Rightarrow> bool" where
  "isExecuteTask (ExecuteTask taskId) = True"
| "isExecuteTask c = False"

text \<open>
  A Task that no \<open>execute\<close> has entered: it is \<open>'pending'\<close>, or \<open>'cancelled'\<close> from there,
  and has no start time. A manager none of whose Tasks has been started.
\<close>

definition notStarted :: "Task \<Rightarrow> bool" where
  "notStarted t = ((status t = Pending \<or> status t = Cancelled) \<and> startedAt t = None)"

definition idle :: "TaskManager \<Rightarrow> bool" where
  "idle m = (list_all notStarted (heap m) \<and> list_all (\<lambda>c. chainTarget c = None) (suspended m)
             \<and> activeTask m = None \<and> providerCalls m = [])"

text \<open>
  The changes of status the code makes by design: \<open>execute\<close> enters \<open>'running'\<close> from
  \<open>'pending'\<close> and leaves it for \<open>'completed'\<close> or \<open>'error'\<close>; \<open>cancel\<close> enters
  \<open>'cancelled'\<close> from \<open>'pending'\<close> or \<open>'running'\<close>.
\<close>

fun transition :: "TaskStatus \<Rightarrow> TaskStatus \<Rightarrow> bool" where
  "transition Pending Running = True"
| "transition Pending Cancelled = True"
| "transition Running Cancelled = True"
| "transition Running Completed = True"
| "transition Running StatusError = True"
| "transition s s' = False"

section \<open>BaseTool and ToolRegistry\<close>

text \<open>
  The parameter object of a tool call (\<open>params: any\<close>): its keys with their values, all
  strings here. A key the object lacks reads as \<open>undefined\<close>, which is \<open>None\<close>.
\<close>

type_synonym params = "(string \<times> string) list"

text \<open>
  Modelled from the spec: the type \<open>ToolSchema\<close>, which no file declares. A tool's schema
  is the list of the parameters a call must give.
\<close>

type_synonym ToolSchema = "string list"

text \<open>
  The abstract members of \<open>BaseTool\<close>. A subclass supplies them, so a tool is the record
  of what it supplies. \<open>execute\<close> works on the platform behind the tool's dependencies,
  whose state has the type \<open>'w\<close>: it returns the state it leaves, and what its promise
  settles with, a value or the error of a rejection. No file declares the type
  \<open>ToolResult\<close> of the value: it is the type \<open>'r\<close>.
\<close>

record ('w, 'r) BaseTool =
  name :: string
  description :: string
  schema :: ToolSchema
  execute :: "'w \<Rightarrow> params \<Rightarrow> 'w \<times> (jsError + 'r)"

text \<open>
  The three protected methods of \<open>BaseTool\<close>. The body of each is a comment and nothing
  else (\<open>// JSON schema validation\<close>, \<open>// Security validation\<close>,
  \<open>// Path traversal protection\<close>): a call checks nothing, throws nothing and returns
  \<open>undefined\<close>.
\<close>

definition validateParams :: "params \<Rightarrow> unit" where
  "validateParams ps = ()"

definition checkPermissions :: "string \<Rightarrow> unit" where
  "checkPermissions action = ()"

definition sanitizePath :: "string \<Rightarrow> string option" where
  "sanitizePath path = None"

text \<open>\<open>ToolRegistry\<close>: the private \<open>Map\<close> from names to tools, and the four methods.\<close>

record ('w, 'r) ToolRegistry =
  tools :: "(string \<times> ('w, 'r) BaseTool) list"

definition ToolRegistry_new :: "('w, 'r) ToolRegistry" where
  "ToolRegistry_new = \<lparr> tools = [] \<rparr>"

definition register :: "('w, 'r) ToolRegistry \<Rightarrow> ('w, 'r) BaseTool \<Rightarrow> ('w, 'r) ToolRegistry" where
  "register r tool = r\<lparr> tools := AList.update (name tool) tool (tools r) \<rparr>"

definition getTool :: "('w, 'r) ToolRegistry \<Rightarrow> string \<Rightarrow> ('w, 'r) BaseTool option" where
  "getTool r n = map_of (tools r) n"

definition getAllTools :: "('w, 'r) ToolRegistry \<Rightarrow> ('w, 'r) BaseTool list" where
  "getAllTools r = map snd (tools r)"

text \<open>
  \<open>ToolRegistry.execute\<close>: \<^verbatim>\<open>if (!tool) throw new Error(`Tool ${name} not found`)\<close>, then
  \<^verbatim>\<open>return await tool.execute(params)\<close>. Nothing is caught, and no parameter is looked at.
\<close>

definition ToolRegistry_execute :: "('w, 'r) ToolRegistry \<Rightarrow> 'w \<Rightarrow> string \<Rightarrow> params \<Rightarrow> 'w \<times> (jsError + 'r)" where
  "ToolRegistry_execute r w n ps =
     (case getTool r n of
        None \<Rightarrow> (w, Inl (JsError (''Tool '' @ n @ '' not found'')))
      | Some tool \<Rightarrow> execute tool w ps)"

text \<open>A registry with the tools of a list registered in order.\<close>

definition registryOf :: "('w, 'r) BaseTool list \<Rightarrow> ('w, 'r) ToolRegistry" where
  "registryOf ts = foldl register ToolRegistry_new ts"

text \<open>A tool whose \<open>execute\<close> rejects.\<close>

definition failingTool :: "(unit, unit) BaseTool" where
  "failingTool =
     \<lparr> name = ''execute_command'', description = [], schema = [],
       execute = (\<lambda>w ps. (w, Inl (JsError ''spawn ENOENT''))) \<rparr>"

subsection \<open>The tool \<open>WriteToFileTool\<close>\<close>

text \<open>
  The platform, as far as the tool uses it: the calls made on \<open>IFileSystem\<close>, in order.
  \<open>writeFile(path, content)\<close> is recorded with its two arguments.
\<close>

datatype fsCall = WriteFile "string option" "string option"

text \<open>
  \<open>WriteToFileTool\<close>, the one tool the source gives:
  \<^verbatim>\<open>async execute(params: { path: string, content: string }) {\<close>
  \<^verbatim>\<open>  await this.deps.fileSystem.writeFile(params.path, params.content) }\<close>.
  It calls none of the three protected methods, passes the path on as it is given, and
  returns nothing. The class declares no name; the name is the argument.
\<close>

definition WriteToFileTool :: "string \<Rightarrow> (fsCall list, unit) BaseTool" where
  "WriteToFileTool n =
     \<lparr> name = n, description = [], schema = [],
       execute = (\<lambda>w ps. (w @ [WriteFile (map_of ps ''path'') (map_of ps ''content'')], Inr ())) \<rparr>"

section \<open>Properties of NodeLogger\<close>

lemma levels_order:
  "levels Debug < levels Info" "levels Info < levels Warn" "levels Warn < levels Error"
  by simp_all

lemma emit_nonempty_iff: "emit lg ts l msg \<noteq> [] \<longleftrightarrow> levels (level lg) \<le> levels l"
  by (cases l) (simp_all add: debug_def info_def warn_def error_def shouldLog_def Let_def)

text \<open>
  C9. A NodeLogger writes a message to the console exactly when the rank of the message's
  level is at least the rank of the logger's configured level, under the order
  debug < info < warn < error; \<open>log\<close> writes what \<open>info\<close> writes; and a child logger
  carries the level its parent has when \<open>child\<close> is called.
\<close>

theorem NodeLogger_level_filter:
  "(emit lg ts l msg \<noteq> []) = (levels (level lg) \<le> levels l)
   \<and> (error lg ts (ErrorObject msg st) \<noteq> []) = (levels (level lg) \<le> levels Error)
   \<and> levels Debug < levels Info \<and> levels Info < levels Warn \<and> levels Warn < levels Error
   \<and> log lg ts msg = info lg ts msg
   \<and> level (child lg p) = level lg"
  by (simp add: emit_nonempty_iff error_def shouldLog_def Let_def log_def child_def
      setLevel_def NodeLogger_new_def)

section \<open>Properties of NodeSystemInfo\<close>

text \<open>The test vector \<open>abc\<close> of FIPS 180-4, as far as \<open>machineId\<close> reads the digest.\<close>

lemma sha256_abc: "take 32 (sha256_hex ''abc'') = ''ba7816bf8f01cfea414140de5dae2223''"
  by code_simp

lemma length_hexChars: "length hexChars = 16"
  by (simp add: hexChars_def)

lemma hexDigit_lower: "hexDigit n \<in> set hexChars"
proof -
  have "n mod 16 < length hexChars" by (simp add: length_hexChars)
  then show ?thesis unfolding hexDigit_def by (rule nth_mem)
qed

lemma length_hex32: "length (hex32 w) = 8"
  by (simp add: hex32_def)

lemma isLowerHex_hex32: "isLowerHex (hex32 w)"
  by (simp add: isLowerHex_def hex32_def list_all_iff hexDigit_lower)

lemma isLowerHex_append: "isLowerHex (xs @ ys) = (isLowerHex xs \<and> isLowerHex ys)"
  by (simp add: isLowerHex_def)

lemma length_hex_of_state: "length (hex_of_state s) = 64"
  by (simp add: hex_of_state_def case_prod_beta length_hex32)

lemma isLowerHex_hex_of_state: "isLowerHex (hex_of_state s)"
  by (simp add: hex_of_state_def case_prod_beta isLowerHex_append isLowerHex_hex32)

lemma isLowerHex_take: "isLowerHex xs \<Longrightarrow> isLowerHex (take n xs)"
  unfolding isLowerHex_def list_all_iff by (auto dest: in_set_takeD)

lemma length_computeMachineId: "length (computeMachineId e) = 32"
  by (simp add: computeMachineId_def Let_def sha256_hex_def length_hex_of_state)

lemma isLowerHex_computeMachineId: "isLowerHex (computeMachineId e)"
  by (simp add: computeMachineId_def Let_def sha256_hex_def isLowerHex_take
      isLowerHex_hex_of_state)

lemma computeMachineId_nonempty: "computeMachineId e \<noteq> []"
  using length_computeMachineId [of e] by auto

lemma computeMachineId_cong:
  "hostname e1 = hostname e2 \<Longrightarrow> platform e1 = platform e2 \<Longrightarrow> arch e1 = arch e2
   \<Longrightarrow> computeMachineId e1 = computeMachineId e2"
  by (simp add: computeMachineId_def)

lemma machineId_fresh:
  "machineId e NodeSystemInfo_new
   = (computeMachineId e, \<lparr> machineId_cache = Some (computeMachineId e) \<rparr>)"
  by (simp add: machineId_def NodeSystemInfo_new_def)

lemma machineId_cached:
  "v \<noteq> [] \<Longrightarrow> machineId e \<lparr> machineId_cache = Some v \<rparr> = (v, \<lparr> machineId_cache = Some v \<rparr>)"
  by (simp add: machineId_def)

text \<open>
  C10. On a new instance a second read of \<open>machineId\<close> returns what the first read
  returned and leaves the instance as it was, whatever the host answers by then; the value
  is 32 characters long, all lowercase hexadecimal digits; and two new instances on hosts
  with equal hostname, platform and architecture read equal values.
\<close>

theorem machineId_deterministic:
  "fst (machineId e2 (snd (machineId e1 NodeSystemInfo_new))) = fst (machineId e1 NodeSystemInfo_new)
   \<and> snd (machineId e2 (snd (machineId e1 NodeSystemInfo_new))) = snd (machineId e1 NodeSystemInfo_new)
   \<and> length (fst (machineId e1 NodeSystemInfo_new)) = 32
   \<and> isLowerHex (fst (machineId e1 NodeSystemInfo_new))
   \<and> (hostname e1 = hostname e2 \<and> platform e1 = platform e2 \<and> arch e1 = arch e2
        \<longrightarrow> fst (machineId e1 NodeSystemInfo_new) = fst (machineId e2 NodeSystemInfo_new))"
proof -
  have same: "hostname e1 = hostname e2 \<and> platform e1 = platform e2 \<and> arch e1 = arch e2
        \<longrightarrow> computeMachineId e1 = computeMachineId e2"
    by (blast intro: computeMachineId_cong)
  show ?thesis
    using same
    by (simp add: machineId_fresh machineId_cached computeMachineId_nonempty
        length_computeMachineId isLowerHex_computeMachineId)
qed

theorem machineId_deterministic_witness:
  "hostname hostA = hostname hostB \<and> platform hostA = platform hostB \<and> arch hostA = arch hostB
   \<and> hostA \<noteq> hostB
   \<and> fst (machineId hostA NodeSystemInfo_new) = fst (machineId hostB NodeSystemInfo_new)
   \<and> length (fst (machineId hostA NodeSystemInfo_new)) = 32"
proof -
  have h: "hostname hostA = hostname hostB \<and> platform hostA = platform hostB
           \<and> arch hostA = arch hostB"
    by (simp add: hostA_def hostB_def)
  have ne: "hostA \<noteq> hostB"
    by (simp add: hostA_def hostB_def)
  from machineId_deterministic [of hostB hostA] h ne show ?thesis
    by blast
qed

section \<open>The invariants hold in every run\<close>

lemmas inv_defs = inv_def inv_valid_def inv_active_def inv_chain_def inv_settled_def
  inv_inflight_def chain_def

lemma map_filter_append: "List.map_filter f (xs @ ys) = List.map_filter f xs @ List.map_filter f ys"
  by (simp add: List.map_filter_def)

lemma map_filter_single:
  "List.map_filter f [x] = (case f x of None \<Rightarrow> [] | Some y \<Rightarrow> [y])"
  by (simp add: List.map_filter_def split: option.splits)

lemma inv_new: "inv TaskManager_new"
  by (simp add: inv_defs TaskManager_new_def List.map_filter_def)

lemma cancel_not_running: "\<not> isRunning (cancel t now)"
  by (simp add: cancel_def isRunning_def)

lemma status_cancel:
  "status (cancel t now) = (if status t = Completed \<or> status t = StatusError then status t else Cancelled)"
  by (simp add: cancel_def)

lemma status_execute_resume: "status (execute_resume t now r) = (case r of Inr _ \<Rightarrow> Completed | Inl _ \<Rightarrow> StatusError)"
  by (simp add: execute_resume_def split: sum.splits)

lemma inv_createTask: "inv m \<Longrightarrow> inv (fst (createTask m now taskId inp cfg))"
  by (auto simp: inv_defs createTask_def Let_def nth_append Task_new_def isRunning_def
      update_conv' less_Suc_eq dest: bspec)

lemma inv_cancelTask: "inv m \<Longrightarrow> inv (fst (cancelTask m now taskId))"
  by (auto simp: inv_defs cancelTask_def status_cancel map_filter_append map_filter_single
      nth_list_update isRunning_def
      split: option.splits if_splits dest: bspec)


lemma chain_empty:
  "List.map_filter chainTarget xs = [] \<Longrightarrow> c \<in> set xs \<Longrightarrow> chainTarget c = None"
  by (induction xs) (auto simp: List.map_filter_simps split: option.splits)

lemma chainTarget_None: "chainTarget c = None \<Longrightarrow> \<not> settledExecute c \<and> \<not> inflight c"
  by (cases c) simp_all

lemma no_running_idle:
  "inv_active m \<Longrightarrow> activeTask m = None \<Longrightarrow> b < length (heap m) \<Longrightarrow> \<not> isRunning (heap m ! b)"
  by (auto simp: inv_active_def)

lemma inv_executeTask:
  assumes "inv m"
  shows "inv (fst (executeTask m now taskId))"
proof (cases "map_of (tasks m) taskId")
  case None
  then show ?thesis using assms by (simp add: executeTask_def)
next
  case (Some a)
  show ?thesis
  proof (cases "activeTask m")
    case (Some b)
    then show ?thesis using assms \<open>map_of (tasks m) taskId = Some a\<close>
      by (simp add: executeTask_def)
  next
    case None
    have a: "a < length (heap m)"
      using assms \<open>map_of (tasks m) taskId = Some a\<close> by (auto simp: inv_defs)
    have ch: "List.map_filter chainTarget (suspended m) = []"
      using assms None by (simp add: inv_defs)
    have quiet: "\<And>c. c \<in> set (suspended m) \<Longrightarrow> \<not> settledExecute c \<and> \<not> inflight c"
      using chain_empty [OF ch] chainTarget_None by blast
    have idle: "\<And>b. b < length (heap m) \<Longrightarrow> \<not> isRunning (heap m ! b)"
      using assms None no_running_idle by (simp add: inv_def)
    have valid: "inv_valid m" using assms by (simp add: inv_def)
    show ?thesis
    proof (cases "status (heap m ! a) = Pending")
      case False
      then have eq: "fst (executeTask m now taskId)
          = m\<lparr> activeTask := Some a, emitted := emitted m @ [TaskStarted a],
                suspended := suspended m
                  @ [AwaitExecute a (Inl (JsError (''Task '' @ id_task (heap m ! a)
                       @ '' is not in pending state'')))] \<rparr>"
        using None \<open>map_of (tasks m) taskId = Some a\<close>
        by (simp add: executeTask_def execute_start_def Let_def)
      show ?thesis
        unfolding eq using valid a ch quiet idle
        by (auto simp: inv_defs map_filter_append map_filter_single)
    next
      case True
      then have eq: "fst (executeTask m now taskId)
          = m\<lparr> activeTask := Some a, emitted := emitted m @ [TaskStarted a],
                heap := (heap m)[a := (heap m ! a)\<lparr> status := Running, startedAt := Some now,
                      emitted_task := emitted_task (heap m ! a) @ [StatusChanged Running] \<rparr>],
                logged := logged m @ [startingMessage ((heap m ! a)\<lparr> status := Running,
                      startedAt := Some now,
                      emitted_task := emitted_task (heap m ! a) @ [StatusChanged Running] \<rparr>)],
                providerCalls := providerCalls m @ [input (heap m ! a)],
                suspended := suspended m @ [AwaitProvider a] \<rparr>"
        using None \<open>map_of (tasks m) taskId = Some a\<close>
        by (simp add: executeTask_def execute_start_def Let_def)
      show ?thesis
        unfolding eq using valid a ch quiet idle
        by (auto simp: inv_defs map_filter_append map_filter_single nth_list_update isRunning_def
            split: if_splits)
    qed
  qed
qed


lemma map_filter_remove:
  assumes "k < length xs"
  shows "List.map_filter f xs
         = List.map_filter f (take k xs @ drop (Suc k) xs) @ [] \<and> f (xs ! k) = None
           \<or> (\<exists>y. f (xs ! k) = Some y
                \<and> List.map_filter f xs
                   = List.map_filter f (take k xs) @ [y] @ List.map_filter f (drop (Suc k) xs))"
proof -
  have "xs = take k xs @ [xs ! k] @ drop (Suc k) xs"
    using assms by (simp add: id_take_nth_drop [symmetric])
  then have "List.map_filter f xs
      = List.map_filter f (take k xs) @ List.map_filter f [xs ! k]
        @ List.map_filter f (drop (Suc k) xs)"
    by (metis map_filter_append)
  then show ?thesis
    by (cases "f (xs ! k)") (simp_all add: map_filter_append map_filter_single)
qed

lemma chain_remove:
  assumes "k < length xs"
    and "List.map_filter chainTarget xs = (case act of None \<Rightarrow> [] | Some a \<Rightarrow> [a])"
  shows "(chainTarget (xs ! k) = None
            \<and> List.map_filter chainTarget (take k xs @ drop (Suc k) xs)
                = List.map_filter chainTarget xs)
         \<or> (\<exists>a. chainTarget (xs ! k) = Some a \<and> act = Some a
               \<and> List.map_filter chainTarget (take k xs @ drop (Suc k) xs) = [])"
  using map_filter_remove [OF assms(1), of chainTarget] assms(2)
  by (auto simp: map_filter_append append_eq_Cons_conv Cons_eq_append_conv split: option.splits)

lemma set_remove: "c \<in> set (take k xs @ drop (Suc k) xs) \<Longrightarrow> c \<in> set xs"
  by (auto dest: in_set_takeD in_set_dropD)


lemma inv_resume:
  assumes "inv m"
  shows "inv (fst (resume m now k settled))"
proof (cases "k < length (suspended m)")
  case False
  then show ?thesis using assms by (simp add: resume_def)
next
  case True
  define c where "c = suspended m ! k"
  define rest where "rest = take k (suspended m) @ drop (Suc k) (suspended m)"
  have res: "fst (resume m now k settled) = fst (continue (m\<lparr> suspended := rest \<rparr>) now c settled)"
    using True by (simp add: resume_def c_def rest_def)
  have cin: "c \<in> set (suspended m)"
    using True by (simp add: c_def)
  have sub: "\<And>d. d \<in> set rest \<Longrightarrow> d \<in> set (suspended m)"
    unfolding rest_def by (rule set_remove)
  have valid: "inv_valid m" and active: "inv_active m" and settled: "inv_settled m"
    and infl: "inv_inflight m"
    using assms by (simp_all add: inv_def)
  have ch: "List.map_filter chainTarget (suspended m)
            = (case activeTask m of None \<Rightarrow> [] | Some a \<Rightarrow> [a])"
    using assms by (simp add: inv_defs)
  have cvalid: "addr c < length (heap m)"
    using valid cin by (auto simp: inv_valid_def)
  note rm = chain_remove [OF True ch, folded c_def rest_def]
  show ?thesis
  proof (cases c)
    case (AwaitCancel a)
    then have "List.map_filter chainTarget rest = List.map_filter chainTarget (suspended m)"
      using rm by auto
    then show ?thesis
      unfolding res using AwaitCancel valid active settled infl ch sub
      by (auto simp: inv_defs continue_def)
  next
    case (AwaitProvider a)
    then have act: "activeTask m = Some a" and e: "List.map_filter chainTarget rest = []"
      using rm by auto
    have quiet: "\<And>d. d \<in> set rest \<Longrightarrow> \<not> settledExecute d \<and> \<not> inflight d"
      using chain_empty [OF e] chainTarget_None by blast
    have st: "status (heap m ! a) = Running \<or> status (heap m ! a) = Cancelled"
      using infl cin AwaitProvider by (auto simp: inv_inflight_def)
    show ?thesis
      unfolding res using AwaitProvider valid active act e quiet st sub cvalid
      by (auto simp: inv_defs continue_def map_filter_append map_filter_single)
  next
    case (AwaitLogic a r)
    then have act: "activeTask m = Some a" and e: "List.map_filter chainTarget rest = []"
      using rm by auto
    have quiet: "\<And>d. d \<in> set rest \<Longrightarrow> \<not> settledExecute d \<and> \<not> inflight d"
      using chain_empty [OF e] chainTarget_None by blast
    have nr: "\<not> isRunning (execute_resume (heap m ! a) now r)"
      by (simp add: isRunning_def status_execute_resume split: sum.splits)
    show ?thesis
      unfolding res using AwaitLogic valid active act e quiet nr sub cvalid
      by (auto simp: inv_defs continue_def map_filter_append map_filter_single
          nth_list_update split: if_splits)
  next
    case (AwaitExecute a r)
    then have act: "activeTask m = Some a" and e: "List.map_filter chainTarget rest = []"
      using rm by auto
    have quiet: "\<And>d. d \<in> set rest \<Longrightarrow> \<not> settledExecute d \<and> \<not> inflight d"
      using chain_empty [OF e] chainTarget_None by blast
    have nr: "\<not> isRunning (heap m ! a)"
      using settled cin AwaitExecute by (auto simp: inv_settled_def)
    have idle: "\<And>b. b < length (heap m) \<Longrightarrow> \<not> isRunning (heap m ! b)"
      using active act nr by (auto simp: inv_active_def)
    show ?thesis
      unfolding res using AwaitExecute valid e quiet idle sub
      by (cases r) (auto simp: inv_defs continue_def)
  qed
qed

lemma inv_step: "inv m \<Longrightarrow> inv (fst (step m c))"
  by (cases "(m, c)" rule: step.cases)
     (simp_all add: inv_createTask inv_executeTask inv_cancelTask inv_resume)

lemma run_snoc: "run m (cs @ [c]) = fst (step (run m cs) c)"
  by (simp add: run_def)

lemma inv_run: "inv (run TaskManager_new cs)"
proof (induction cs rule: rev_induct)
  case Nil
  then show ?case by (simp add: run_def inv_new)
next
  case (snoc c cs)
  then show ?case by (simp add: run_snoc inv_step)
qed

section \<open>One active Task\<close>

lemma filter_at_most_one:
  assumes "\<And>i j. i < length xs \<Longrightarrow> j < length xs \<Longrightarrow> P (xs ! i) \<Longrightarrow> P (xs ! j) \<Longrightarrow> i = j"
  shows "length (filter P xs) \<le> 1"
proof -
  have "card {i. i < length xs \<and> P (xs ! i)} \<le> 1"
  proof (rule card_le_Suc0_iff_eq [THEN iffD2, unfolded One_nat_def [symmetric]])
    show "finite {i. i < length xs \<and> P (xs ! i)}" by simp
    show "\<forall>a\<in>{i. i < length xs \<and> P (xs ! i)}. \<forall>b\<in>{i. i < length xs \<and> P (xs ! i)}. a = b"
      using assms by blast
  qed
  then show ?thesis by (simp add: length_filter_conv_card)
qed

lemma running_is_active:
  assumes "t \<in> set (heap (run TaskManager_new cs))" and "isRunning t"
  shows "activeTask (run TaskManager_new cs) \<noteq> None"
proof -
  obtain b where "b < length (heap (run TaskManager_new cs))"
    and "heap (run TaskManager_new cs) ! b = t"
    using assms(1) by (auto simp: in_set_conv_nth)
  then show ?thesis
    using inv_run [of cs] assms(2) by (auto simp: inv_def inv_active_def)
qed

text \<open>
  The manager of the claim is the class \<open>TaskManager\<close>. The class \<open>RooCodeEngine\<close> of the
  example server is another component: its \<open>executeTask\<close> takes a request, makes a Task
  record of its own in status \<open>'running'\<close> for every call, and has neither \<open>createTask\<close>
  nor a guard. It is not part of this model.
\<close>

text \<open>
  C1. In every state a manager reaches by calls of \<open>createTask\<close>, \<open>executeTask\<close> and
  \<open>cancelTask\<close> and by resuming suspended calls in any order, at most one Task is
  \<open>'running'\<close> (the code has no status \<open>'awaiting_approval'\<close>); and while a Task is running,
  \<open>executeTask\<close> for a stored Task throws \<open>Another task is already running\<close> and leaves
  the manager and every Task as they were.
\<close>

theorem single_active_task:
  "length (filter isRunning (heap (run TaskManager_new cs))) \<le> 1
   \<and> ((\<exists>t \<in> set (heap (run TaskManager_new cs)). isRunning t)
        \<and> map_of (tasks (run TaskManager_new cs)) taskId \<noteq> None
      \<longrightarrow> executeTask (run TaskManager_new cs) now taskId
          = (run TaskManager_new cs, Throws (JsError ''Another task is already running'')))"
proof -
  have act: "\<And>b. b < length (heap (run TaskManager_new cs))
      \<Longrightarrow> isRunning (heap (run TaskManager_new cs) ! b)
      \<Longrightarrow> activeTask (run TaskManager_new cs) = Some b"
    using inv_run [of cs] unfolding inv_def inv_active_def by blast
  have one: "length (filter isRunning (heap (run TaskManager_new cs))) \<le> 1"
  proof (rule filter_at_most_one)
    fix i j
    assume i: "i < length (heap (run TaskManager_new cs))"
      and j: "j < length (heap (run TaskManager_new cs))"
      and ri: "isRunning (heap (run TaskManager_new cs) ! i)"
      and rj: "isRunning (heap (run TaskManager_new cs) ! j)"
    have "Some i = Some j"
      using act [OF i ri] act [OF j rj] by (rule trans [OF sym])
    then show "i = j" by (rule Option.option.inject [THEN iffD1])
  qed
  have two: "executeTask (run TaskManager_new cs) now taskId
          = (run TaskManager_new cs, Throws (JsError ''Another task is already running''))"
    if "t \<in> set (heap (run TaskManager_new cs))" "isRunning t"
      "map_of (tasks (run TaskManager_new cs)) taskId \<noteq> None" for t
    using running_is_active [OF that(1,2)] that(3)
    by (auto simp: executeTask_def)
  show ?thesis using one two by blast
qed

lemma testRun_state:
  "run TaskManager_new testRun =
     \<lparr> heap = [(Task_new ''task-1'' ''test1'' emptyConfig 1)
                  \<lparr> status := Running, startedAt := Some 3,
                    emitted_task := [StatusChanged Running] \<rparr>,
               Task_new ''task-2'' ''test2'' emptyConfig 2],
       tasks = [(''task-1'', 0), (''task-2'', 1)],
       activeTask = Some 0,
       emitted = [TaskCreated 0, TaskCreated 1, TaskStarted 0],
       suspended = [AwaitProvider 0],
       providerCalls = [''test1''],
       logged = [''Starting task task-1: test1''] \<rparr>"
  by (simp add: testRun_def run_def TaskManager_new_def createTask_def executeTask_def
      execute_start_def Task_new_def startingMessage_def Let_def)

theorem single_active_task_witness:
  "(\<exists>t \<in> set (heap (run TaskManager_new testRun)). isRunning t)
   \<and> map_of (tasks (run TaskManager_new testRun)) ''task-2'' \<noteq> None
   \<and> executeTask (run TaskManager_new testRun) 4 ''task-2''
       = (run TaskManager_new testRun, Throws (JsError ''Another task is already running''))
   \<and> status (heap (run TaskManager_new testRun) ! 0) = Running
   \<and> status (heap (run TaskManager_new testRun) ! 1) = Pending"
proof -
  have h1: "\<exists>t \<in> set (heap (run TaskManager_new testRun)). isRunning t"
    by (simp add: testRun_state isRunning_def)
  have h2: "map_of (tasks (run TaskManager_new testRun)) ''task-2'' \<noteq> None"
    by (simp add: testRun_state)
  have h3: "status (heap (run TaskManager_new testRun) ! 0) = Running
            \<and> status (heap (run TaskManager_new testRun) ! 1) = Pending"
    by (simp add: testRun_state Task_new_def)
  from single_active_task [where cs = testRun and taskId = "''task-2''" and now = 4] h1 h2 h3 show ?thesis
    by blast
qed

section \<open>Creating a Task\<close>

lemma notStarted_cancel: "notStarted t \<Longrightarrow> notStarted (cancel t now)"
  by (auto simp: notStarted_def cancel_def)

lemma list_all_update: "list_all P xs \<Longrightarrow> P x \<Longrightarrow> list_all P (xs[a := x])"
  by (auto simp: list_all_iff dest: set_update_subset_insert [THEN subsetD])

lemma idle_new: "idle TaskManager_new"
  by (simp add: idle_def TaskManager_new_def)

lemma idle_createTask: "idle m \<Longrightarrow> idle (fst (createTask m now taskId inp cfg))"
  by (simp add: idle_def createTask_def Let_def notStarted_def Task_new_def)

lemma idle_nth: "idle m \<Longrightarrow> a < length (heap m) \<Longrightarrow> notStarted (heap m ! a)"
  by (simp add: idle_def list_all_length)

lemma idle_cancelTask: "idle m \<Longrightarrow> idle (fst (cancelTask m now taskId))"
proof (cases "map_of (tasks m) taskId")
  case None
  then show "idle m \<Longrightarrow> ?thesis" by (simp add: cancelTask_def)
next
  case (Some a)
  assume i: "idle m"
  show ?thesis
  proof (cases "a < length (heap m)")
    case True
    have "notStarted (cancel (heap m ! a) now)"
      using idle_nth [OF i True] by (rule notStarted_cancel)
    moreover have "list_all notStarted (heap m)"
      using i by (simp add: idle_def)
    ultimately have "list_all notStarted ((heap m)[a := cancel (heap m ! a) now])"
      by (simp add: list_all_update)
    then show ?thesis using i Some
      by (simp add: cancelTask_def idle_def)
  next
    case False
    then have "(heap m)[a := cancel (heap m ! a) now] = heap m"
      by (simp add: list_update_beyond)
    then show ?thesis using i Some
      by (simp add: cancelTask_def idle_def)
  qed
qed

lemma idle_resume: "idle m \<Longrightarrow> idle (fst (resume m now k settled))"
proof (cases "k < length (suspended m)")
  case False
  then show "idle m \<Longrightarrow> ?thesis" by (simp add: resume_def)
next
  case True
  assume i: "idle m"
  then have "chainTarget (suspended m ! k) = None"
    using True by (simp add: idle_def list_all_length)
  then obtain a where c: "suspended m ! k = AwaitCancel a"
    by (cases "suspended m ! k") simp_all
  have "list_all (\<lambda>c. chainTarget c = None) (take k (suspended m) @ drop (Suc k) (suspended m))"
    using i by (auto simp: idle_def list_all_iff dest: in_set_takeD in_set_dropD)
  then show ?thesis using i True c
    by (simp add: resume_def continue_def idle_def)
qed

lemma idle_step: "idle m \<Longrightarrow> \<not> isExecuteTask (snd c) \<Longrightarrow> idle (fst (step m c))"
  by (cases "(m, c)" rule: step.cases)
     (simp_all add: idle_createTask idle_cancelTask idle_resume)

lemma idle_run: "idle (run TaskManager_new (filter (\<lambda>c. \<not> isExecuteTask (snd c)) cs))"
proof (induction cs rule: rev_induct)
  case Nil
  then show ?case by (simp add: run_def idle_new)
next
  case (snoc c cs)
  then show ?case by (simp add: run_snoc idle_step)
qed

text \<open>
  C7. \<open>createTask\<close> allocates a new Task with the given id and input, in status
  \<open>'pending'\<close> and without a start time, stores it in the map under its id, leaves the
  Tasks that exist untouched, emits \<open>'taskCreated'\<close> with the new Task, and starts
  nothing: the active Task, the suspended calls and the calls to the provider are as
  before. In a run without a call of \<open>executeTask\<close> every Task stays not started and the
  provider is never called.
\<close>

theorem createTask_pending:
  "snd (createTask m now taskId inp cfg) = TaskRef (length (heap m))
   \<and> getTask (fst (createTask m now taskId inp cfg)) taskId = Some (Task_new taskId inp cfg now)
   \<and> id_task (Task_new taskId inp cfg now) = taskId
   \<and> input (Task_new taskId inp cfg now) = inp
   \<and> status (Task_new taskId inp cfg now) = Pending
   \<and> startedAt (Task_new taskId inp cfg now) = None
   \<and> take (length (heap m)) (heap (fst (createTask m now taskId inp cfg))) = heap m
   \<and> emitted (fst (createTask m now taskId inp cfg)) = emitted m @ [TaskCreated (length (heap m))]
   \<and> activeTask (fst (createTask m now taskId inp cfg)) = activeTask m
   \<and> suspended (fst (createTask m now taskId inp cfg)) = suspended m
   \<and> providerCalls (fst (createTask m now taskId inp cfg)) = providerCalls m
   \<and> list_all notStarted (heap (run TaskManager_new (filter (\<lambda>c. \<not> isExecuteTask (snd c)) cs)))
   \<and> providerCalls (run TaskManager_new (filter (\<lambda>c. \<not> isExecuteTask (snd c)) cs)) = []"
  using idle_run [of cs]
  by (simp add: createTask_def getTask_def Let_def update_conv' Task_new_def idle_def)

section \<open>Cancelling\<close>

lemmas run_simps = run_def TaskManager_new_def createTask_def executeTask_def cancelTask_def
  resume_def continue_def execute_start_def execute_resume_def executeTaskLogic_resume_def
  cancel_def Task_new_def startingMessage_def Let_def

text \<open>
  C3. The claim is that a Task in a terminal state keeps its status and result. In
  \<open>cancelRun\<close> the Task is \<open>'cancelled'\<close> after the third call, with the flag \<open>cancelled\<close>
  set, a completion time and no result; when the provider has answered, the rest of
  \<open>execute\<close> makes it \<open>'completed'\<close>, with a result and a later completion time. Nothing
  reads the flag: \<open>checkCancellation\<close> is never called.
\<close>

theorem terminal_cancelled_overwritten:
  "status (heap (run TaskManager_new (take 3 cancelRun)) ! 0) = Cancelled
   \<and> completedAt (heap (run TaskManager_new (take 3 cancelRun)) ! 0) = Some 3
   \<and> result (heap (run TaskManager_new (take 3 cancelRun)) ! 0) = None
   \<and> cancelled (heap (run TaskManager_new (take 3 cancelRun)) ! 0)
   \<and> status (heap (run TaskManager_new cancelRun) ! 0) = Completed
   \<and> completedAt (heap (run TaskManager_new cancelRun) ! 0) = Some 5
   \<and> result (heap (run TaskManager_new cancelRun) ! 0) \<noteq> None"
  by (simp add: cancelRun_def run_simps)

text \<open>
  C4. The claim is that \<open>cancelTask\<close> on a Task in a terminal state changes nothing, so
  that two calls leave what one call leaves. The guard of \<open>cancel\<close> returns early for
  \<open>'completed'\<close> and \<open>'error'\<close> and not for \<open>'cancelled'\<close>: on a cancelled Task each call
  sets the completion time again, and the Task after two calls differs from the Task
  after one.
\<close>

theorem cancel_twice_differs:
  "status (heap cancelledOnce ! 0) = Cancelled
   \<and> completedAt (heap cancelledOnce ! 0) = Some 2
   \<and> snd (cancelTask cancelledOnce 5 ''task-1'') = Awaiting
   \<and> completedAt (heap (fst (cancelTask cancelledOnce 5 ''task-1'')) ! 0) = Some 5
   \<and> completedAt (heap (fst (cancelTask (fst (cancelTask cancelledOnce 5 ''task-1'')) 9 ''task-1'')) ! 0)
       = Some 9
   \<and> heap (fst (cancelTask (fst (cancelTask cancelledOnce 5 ''task-1'')) 9 ''task-1''))
       \<noteq> heap (fst (cancelTask cancelledOnce 5 ''task-1''))"
  by (simp add: cancelledOnce_def run_simps)

text \<open>The two terminal states the guard of \<open>cancel\<close> covers.\<close>

lemma cancel_finished:
  "status t = Completed \<or> status t = StatusError \<Longrightarrow> cancel t now = t"
  by (auto simp: cancel_def)

section \<open>The status of a Task\<close>

text \<open>
  C8, as stated, fails twice. A Task that is cancelled before it is started goes from
  \<open>'pending'\<close> to \<open>'cancelled'\<close> without being \<open>'running'\<close> in between; and a Task whose
  provider rejects ends in the status \<open>'error'\<close>, which is none of the six values of the
  claim.
\<close>

theorem status_relation_counterexample:
  "status (heap (run TaskManager_new (take 1 pendingCancelRun)) ! 0) = Pending
   \<and> status (heap (run TaskManager_new pendingCancelRun) ! 0) = Cancelled
   \<and> statusName (status (heap (run TaskManager_new failRun) ! 0)) = ''error''
   \<and> statusName (status (heap (run TaskManager_new failRun) ! 0))
       \<notin> {''pending'', ''running'', ''awaiting_approval'', ''completed'', ''failed'', ''cancelled''}"
  by (simp add: pendingCancelRun_def failRun_def run_simps)

lemma nth_update_cases: "a < length xs \<Longrightarrow> (xs[b := v]) ! a = (if b = a then v else xs ! a)"
  by simp

lemma step_status:
  assumes "inv m" and a: "a < length (heap m)" and nc: "status (heap m ! a) \<noteq> Cancelled"
  shows "status (heap (fst (step m c)) ! a) = status (heap m ! a)
         \<or> transition (status (heap m ! a)) (status (heap (fst (step m c)) ! a))"
proof (cases c)
  case (Pair now cl)
  show ?thesis
  proof (cases cl)
    case (CreateTask taskId inp cfg)
    then show ?thesis using Pair a by (simp add: createTask_def Let_def nth_append)
  next
    case (ExecuteTask taskId)
    then show ?thesis using Pair a
      by (auto simp: executeTask_def execute_start_def Let_def nth_update_cases
          split: option.splits)
  next
    case (CancelTask taskId)
    then show ?thesis using Pair a nc
      by (cases "status (heap m ! a)")
         (auto simp: cancelTask_def status_cancel nth_update_cases split: option.splits)
  next
    case (Resume k settled)
    show ?thesis
    proof (cases "k < length (suspended m)")
      case False
      then show ?thesis using Pair Resume by (simp add: resume_def)
    next
      case True
      then have cin: "suspended m ! k \<in> set (suspended m)" by simp
      show ?thesis
      proof (cases "suspended m ! k")
        case (AwaitLogic b r)
        then have "status (heap m ! b) = Running \<or> status (heap m ! b) = Cancelled"
          using assms(1) cin by (auto simp: inv_def inv_inflight_def)
        then show ?thesis using Pair Resume True AwaitLogic a nc
          by (cases r)
             (auto simp: resume_def continue_def nth_update_cases status_execute_resume)
      next
        case (AwaitProvider b)
        then show ?thesis using Pair Resume True by (simp add: resume_def continue_def)
      next
        case (AwaitExecute b r)
        then show ?thesis using Pair Resume True
          by (cases r) (simp_all add: resume_def continue_def)
      next
        case (AwaitCancel b)
        then show ?thesis using Pair Resume True by (simp add: resume_def continue_def)
      qed
    qed
  qed
qed

text \<open>
  C8, amended. The status of a Task is one of the five values \<open>'pending'\<close>, \<open>'running'\<close>,
  \<open>'completed'\<close>, \<open>'error'\<close>, \<open>'cancelled'\<close>. In every state a manager reaches, a call or
  a resumed call changes the status of a Task that is not cancelled only along
  pending \<rightarrow> running, pending \<rightarrow> cancelled, running \<rightarrow> cancelled, running \<rightarrow> completed
  or running \<rightarrow> error; so \<open>'completed'\<close> and \<open>'error'\<close> are never left.
\<close>

theorem status_transitions:
  "status t \<in> {Pending, Running, Completed, StatusError, Cancelled}
   \<and> (a < length (heap (run TaskManager_new cs))
        \<and> status (heap (run TaskManager_new cs) ! a) \<noteq> Cancelled
      \<longrightarrow> status (heap (fst (step (run TaskManager_new cs) c)) ! a)
            = status (heap (run TaskManager_new cs) ! a)
          \<or> transition (status (heap (run TaskManager_new cs) ! a))
               (status (heap (fst (step (run TaskManager_new cs) c)) ! a)))"
proof -
  have "status t \<in> {Pending, Running, Completed, StatusError, Cancelled}"
    by (cases "status t") simp_all
  then show ?thesis using step_status [OF inv_run, of a cs c] by blast
qed

theorem status_transitions_witness:
  "0 < length (heap (run TaskManager_new (take 2 cancelRun)))
   \<and> status (heap (run TaskManager_new (take 2 cancelRun)) ! 0) = Running
   \<and> status (heap (run TaskManager_new (take 2 cancelRun)) ! 0) \<noteq> Cancelled
   \<and> status (heap (fst (step (run TaskManager_new (take 2 cancelRun)) (3, CancelTask ''task-1''))) ! 0)
       = Cancelled
   \<and> transition (status (heap (run TaskManager_new (take 2 cancelRun)) ! 0))
        (status (heap (fst (step (run TaskManager_new (take 2 cancelRun)) (3, CancelTask ''task-1''))) ! 0))"
proof -
  have h: "0 < length (heap (run TaskManager_new (take 2 cancelRun)))
      \<and> status (heap (run TaskManager_new (take 2 cancelRun)) ! 0) = Running
      \<and> status (heap (run TaskManager_new (take 2 cancelRun)) ! 0) \<noteq> Cancelled
      \<and> status (heap (fst (step (run TaskManager_new (take 2 cancelRun)) (3, CancelTask ''task-1''))) ! 0)
          = Cancelled"
    by (simp add: cancelRun_def run_simps)
  from status_transitions [where a = 0 and cs = "take 2 cancelRun"
      and c = "(3, CancelTask ''task-1'')" and t = "Task_new [] [] emptyConfig 0"] h
  show ?thesis by auto
qed

section \<open>Executing a Task\<close>

text \<open>
  The test \<open>should execute task and return result\<close> of \<open>TaskManager.test.ts\<close>: the
  provider is called once, with the input, and the Task ends \<open>'completed'\<close> with a
  successful result and no error.
\<close>

lemma completeRun_result:
  "providerCalls (run TaskManager_new completeRun) = [''list files'']
   \<and> status (heap (run TaskManager_new completeRun) ! 0) = Completed
   \<and> map_option success (result (heap (run TaskManager_new completeRun) ! 0)) = Some True
   \<and> error_task (heap (run TaskManager_new completeRun) ! 0) = None
   \<and> suspended (run TaskManager_new completeRun) = []"
  by (simp add: completeRun_def run_simps)

text \<open>
  The body of \<open>executeTaskLogic\<close> is marked as a placeholder in the source. As it stands,
  the provider is called only where \<open>executeTask\<close> starts a Task, once.
\<close>

lemma providerCalls_step:
  "length (providerCalls (fst (step m c)))
   \<le> length (providerCalls m) + (if isExecuteTask (snd c) then 1 else 0)"
proof (cases c)
  case (Pair now cl)
  show ?thesis
  proof (cases cl)
    case (Resume k settled)
    then show ?thesis using Pair
      by (cases "suspended m ! k")
         (auto simp: resume_def continue_def split: sum.splits)
  qed (use Pair in \<open>auto simp: createTask_def executeTask_def cancelTask_def Let_def
        split: option.splits sum.splits\<close>)
qed

lemma providerCalls_run:
  "length (providerCalls (run TaskManager_new cs)) \<le> length (filter (\<lambda>c. isExecuteTask (snd c)) cs)"
proof (induction cs rule: rev_induct)
  case Nil
  then show ?case by (simp add: run_def TaskManager_new_def)
next
  case (snoc c cs)
  then show ?case using providerCalls_step [of "run TaskManager_new cs" c]
    by (cases "isExecuteTask (snd c)") (simp_all add: run_snoc)
qed

text \<open>
  As it stands, the execution of a pending Task on a manager with no active Task and no
  suspended call: one call to the provider with the Task's input; the Task ends
  \<open>'completed'\<close> when the provider answers and \<open>'error'\<close>, with the provider's error,
  when it rejects.
\<close>

lemma execution_as_written:
  "length (providerCalls (run TaskManager_new cs)) \<le> length (filter (\<lambda>c. isExecuteTask (snd c)) cs)
   \<and> (map_of (tasks m) taskId = Some a \<and> a < length (heap m) \<and> status (heap m ! a) = Pending
        \<and> activeTask m = None \<and> suspended m = []
      \<longrightarrow> providerCalls (run m [(ta, ExecuteTask taskId), (tb, Resume 0 settled),
                               (tc, Resume 0 x), (td, Resume 0 y)])
            = providerCalls m @ [input (heap m ! a)]
          \<and> status (heap (run m [(ta, ExecuteTask taskId), (tb, Resume 0 settled),
                               (tc, Resume 0 x), (td, Resume 0 y)]) ! a)
            = (case settled of Inr response \<Rightarrow> Completed | Inl e \<Rightarrow> StatusError)
          \<and> error_task (heap (run m [(ta, ExecuteTask taskId), (tb, Resume 0 settled),
                               (tc, Resume 0 x), (td, Resume 0 y)]) ! a)
            = (case settled of Inr response \<Rightarrow> error_task (heap m ! a) | Inl e \<Rightarrow> Some e)
          \<and> activeTask (run m [(ta, ExecuteTask taskId), (tb, Resume 0 settled),
                               (tc, Resume 0 x), (td, Resume 0 y)]) = None
          \<and> suspended (run m [(ta, ExecuteTask taskId), (tb, Resume 0 settled),
                               (tc, Resume 0 x), (td, Resume 0 y)]) = [])"
proof -
  have "providerCalls (run m [(ta, ExecuteTask taskId), (tb, Resume 0 settled),
                               (tc, Resume 0 x), (td, Resume 0 y)])
            = providerCalls m @ [input (heap m ! a)]
          \<and> status (heap (run m [(ta, ExecuteTask taskId), (tb, Resume 0 settled),
                               (tc, Resume 0 x), (td, Resume 0 y)]) ! a)
            = (case settled of Inr response \<Rightarrow> Completed | Inl e \<Rightarrow> StatusError)
          \<and> error_task (heap (run m [(ta, ExecuteTask taskId), (tb, Resume 0 settled),
                               (tc, Resume 0 x), (td, Resume 0 y)]) ! a)
            = (case settled of Inr response \<Rightarrow> error_task (heap m ! a) | Inl e \<Rightarrow> Some e)
          \<and> activeTask (run m [(ta, ExecuteTask taskId), (tb, Resume 0 settled),
                               (tc, Resume 0 x), (td, Resume 0 y)]) = None
          \<and> suspended (run m [(ta, ExecuteTask taskId), (tb, Resume 0 settled),
                               (tc, Resume 0 x), (td, Resume 0 y)]) = []"
    if "map_of (tasks m) taskId = Some a" "a < length (heap m)" "status (heap m ! a) = Pending"
      "activeTask m = None" "suspended m = []"
    using that
    by (cases settled)
       (simp_all add: run_def executeTask_def resume_def continue_def execute_start_def
          execute_resume_def executeTaskLogic_resume_def Let_def)
  then show ?thesis using providerCalls_run [of cs] by blast
qed

section \<open>Properties of the tool registry\<close>

lemma getTool_register:
  "getTool (register r tool) n = (if n = name tool then Some tool else getTool r n)"
  by (simp add: getTool_def register_def update_conv')

lemma registryOf_snoc: "registryOf (ts @ [t]) = register (registryOf ts) t"
  by (simp add: registryOf_def)

lemma getTool_registryOf_None: "n \<notin> name ` set ts \<Longrightarrow> getTool (registryOf ts) n = None"
proof (induction ts rule: rev_induct)
  case Nil
  then show ?case by (simp add: registryOf_def getTool_def ToolRegistry_new_def)
next
  case (snoc t ts)
  then show ?case by (auto simp: registryOf_snoc getTool_register)
qed

text \<open>
  C6, as stated, fails. For a name that is not registered \<open>ToolRegistry.execute\<close> throws
  \<open>Tool read_file not found\<close>: the caller gets an error, not a result record. And when a
  registered tool's \<open>execute\<close> rejects, the registry lets the error through.
\<close>

theorem registry_throws_counterexample:
  "ToolRegistry_execute (ToolRegistry_new :: (unit, unit) ToolRegistry) () ''read_file''
     [(''path'', ''README.md'')]
   = ((), Inl (JsError ''Tool read_file not found''))
   \<and> ToolRegistry_execute (registryOf [failingTool]) () ''execute_command'' []
   = ((), Inl (JsError ''spawn ENOENT''))"
  by (simp add: ToolRegistry_execute_def ToolRegistry_new_def getTool_def registryOf_def
      register_def failingTool_def)

text \<open>
  C6, amended. For a registered name \<open>ToolRegistry.execute\<close> returns exactly what the
  tool's own \<open>execute\<close> returns or throws, on a tool just registered and on any tool the
  registry holds; for a name that none of the registered tools has, it throws
  \<open>Tool <name> not found\<close> and leaves the platform as it was.
\<close>

theorem registry_execute_outcome:
  "ToolRegistry_execute (register r tool) w (name tool) ps = execute tool w ps
   \<and> (getTool r n = Some tool \<longrightarrow> ToolRegistry_execute r w n ps = execute tool w ps)
   \<and> (n \<notin> name ` set ts
      \<longrightarrow> ToolRegistry_execute (registryOf ts) w n ps
          = (w, Inl (JsError (''Tool '' @ n @ '' not found''))))"
  by (simp add: ToolRegistry_execute_def getTool_register getTool_registryOf_None)

theorem registry_execute_outcome_witness:
  "getTool (registryOf [failingTool]) ''execute_command'' = Some failingTool
   \<and> ToolRegistry_execute (registryOf [failingTool]) () ''execute_command'' []
       = execute failingTool () []
   \<and> ''read_file'' \<notin> name ` set [failingTool]
   \<and> ToolRegistry_execute (registryOf [failingTool]) () ''read_file'' []
       = ((), Inl (JsError ''Tool read_file not found''))"
proof -
  have h: "getTool (registryOf [failingTool]) ''execute_command'' = Some failingTool
      \<and> ''read_file'' \<notin> name ` set [failingTool]"
    by (simp add: registryOf_def getTool_register failingTool_def)
  from registry_execute_outcome [where r = "registryOf [failingTool]" and tool = failingTool
      and n = "''execute_command''" and w = "()" and ps = "[]"
      and ts = "[] :: (unit, unit) BaseTool list"]
    registry_execute_outcome [where ts = "[failingTool]" and n = "''read_file''" and w = "()"
      and ps = "[]" and r = "registryOf [failingTool]" and tool = failingTool] h
  show ?thesis by simp
qed

subsection \<open>Path containment\<close>

text \<open>
  Whatever the parameters are, \<open>WriteToFileTool\<close> called through the registry makes one
  call of \<open>writeFile\<close>, with the path as it is given.
\<close>

lemma WriteToFileTool_writes:
  "ToolRegistry_execute (register r (WriteToFileTool n)) w n ps
   = (w @ [WriteFile (map_of ps ''path'') (map_of ps ''content'')], Inr ())"
  by (simp add: ToolRegistry_execute_def getTool_register WriteToFileTool_def)

text \<open>
  C2. The claim is that a tool invocation with a path that contains a traversal sequence
  or resolves outside the workspace root fails with a \<open>SandboxViolation\<close> and performs
  no file-system I/O. \<open>WriteToFileTool\<close>, registered and called with the path
  \<open>../../etc/passwd\<close>, calls \<open>writeFile\<close> with that path and its promise resolves: no
  failure, and a write. \<open>sanitizePath\<close>, which the source marks as the path traversal
  protection, returns \<open>undefined\<close> for this path as for any other, and nothing calls it.
\<close>

theorem traversal_path_written:
  "ToolRegistry_execute (registryOf [WriteToFileTool ''write_to_file'']) [] ''write_to_file''
     [(''path'', ''../../etc/passwd''), (''content'', ''x'')]
   = ([WriteFile (Some ''../../etc/passwd'') (Some ''x'')], Inr ())
   \<and> sanitizePath ''../../etc/passwd'' = None"
  by (simp add: ToolRegistry_execute_def registryOf_def getTool_register WriteToFileTool_def
      sanitizePath_def)

end
